theory Spec2Isabelle
  imports Main "HOL-Library.Extended_Nat"
begin

section \<open>Images\<close>

text \<open>
  Modelled from the spec: the image library (Pillow) that \<open>src/app.py\<close> calls is not part
  of the repository. An image is what the program reads of it: its mode (\<open>img.mode\<close>), its
  size (\<open>img.size\<close>, width first) and its pixels, a list of band values (0..255) at every
  coordinate. Only the coordinates inside the size are meaningful.
\<close>

type_synonym pixel = "nat list"

text \<open>
  Modelled from the spec: a Pillow image, which is not part of the repository, as far as
  the program reads it.
\<close>

record image =
  mode :: string
  img_size :: "int \<times> int"
  getpixel :: "int \<times> int \<Rightarrow> pixel"

text \<open>The colours the program names: \<open>(255, 255, 255)\<close>, \<open>"white"\<close> and \<open>"black"\<close>.\<close>

definition white :: pixel where
  "white = [255, 255, 255]"

definition black :: pixel where
  "black = [0, 0, 0]"

text \<open>
  Modelled from the spec: \<open>Image.new(mode, size, color)\<close>, a canvas of one solid colour.
\<close>

definition Image_new :: "string \<Rightarrow> int \<times> int \<Rightarrow> pixel \<Rightarrow> image" where
  "Image_new md sz colour = \<lparr>mode = md, img_size = sz, getpixel = (\<lambda>_. colour)\<rparr>"

text \<open>
  Modelled from the spec: \<open>dst.paste(src, (bx, by))\<close> without a mask copies the pixels of
  \<open>src\<close> over the rectangle of its size whose top-left corner is \<open>(bx, by)\<close>; the mode and
  the size of \<open>dst\<close> stay.
\<close>

definition paste_at :: "image \<Rightarrow> image \<Rightarrow> int \<times> int \<Rightarrow> image" where
  "paste_at dst src box =
     dst\<lparr>getpixel := (\<lambda>(i, j).
        if fst box \<le> i \<and> i < fst box + fst (img_size src) \<and>
           snd box \<le> j \<and> j < snd box + snd (img_size src)
        then getpixel src (i - fst box, j - snd box)
        else getpixel dst (i, j))\<rparr>"

text \<open>
  Modelled from the spec: what Pillow computes from pixel data with tables and filter
  kernels of its own is a parameter: the pixels of \<open>img.convert(mode)\<close> and the pixels of
  \<open>img.resize(size, filter)\<close>.
\<close>

datatype resampling = NEAREST | BILINEAR | BICUBIC | LANCZOS

text \<open>
  Modelled from the spec: the part of Pillow that stays a parameter, the pixels its
  conversions and its resampling filters compute.
\<close>

record pillow =
  convert_pixels :: "image \<Rightarrow> string \<Rightarrow> int \<times> int \<Rightarrow> pixel"
  resample :: "resampling \<Rightarrow> image \<Rightarrow> int \<times> int \<Rightarrow> int \<times> int \<Rightarrow> pixel"

text \<open>
  Modelled from the spec: \<open>img.convert(mode)\<close> gives an image of that mode and of the
  same size.
\<close>

definition convert :: "pillow \<Rightarrow> image \<Rightarrow> string \<Rightarrow> image" where
  "convert lib img md =
     \<lparr>mode = md, img_size = img_size img, getpixel = convert_pixels lib img md\<rparr>"

text \<open>
  Modelled from the spec: \<open>img.split()[-1]\<close>, the last band of the image as a one-band
  image; for the modes RGBA and LA it is the alpha channel.
\<close>

definition last_band :: "image \<Rightarrow> image" where
  "last_band img =
     \<lparr>mode = ''L'', img_size = img_size img, getpixel = (\<lambda>p. [last (getpixel img p)])\<rparr>"

text \<open>
  Modelled from the spec: \<open>dst.paste(src, mask=msk)\<close> on an RGB image mixes, band by
  band, the pixel of \<open>dst\<close> and the colour of \<open>src\<close> in the proportion the mask gives (255
  takes the source, 0 keeps the destination), with Pillow's rounding on 8 bits. The colour
  bands of an RGBA pixel are its first three; an LA pixel has its luminance three times.
  First the rounded division by 255.
\<close>

definition DIV255 :: "nat \<Rightarrow> nat" where
  "DIV255 a = (let tmp = a + 128 in (tmp div 256 + tmp) div 256)"

text \<open>
  Modelled from the spec: the mix of a destination band \<open>in1\<close> and a source band
  \<open>in2\<close> through the mask value \<open>m\<close>, inside Pillow's paste.
\<close>

definition BLEND :: "nat \<Rightarrow> nat \<Rightarrow> nat \<Rightarrow> nat" where
  "BLEND m in1 in2 = DIV255 (in1 * (255 - m) + in2 * m)"

text \<open>
  Modelled from the spec: the colour of a source pixel as Pillow's paste on an RGB image
  reads it.
\<close>

definition colour_bands :: "image \<Rightarrow> int \<times> int \<Rightarrow> pixel" where
  "colour_bands src p =
     (if mode src = ''LA'' then (case getpixel src p of [] \<Rightarrow> [] | l # _ \<Rightarrow> [l, l, l])
      else take 3 (getpixel src p))"

text \<open>
  Modelled from the spec: \<open>dst.paste(src, mask=msk)\<close> of Pillow, for images of one
  size; the mode and the size of \<open>dst\<close> stay.
\<close>

definition paste_mask :: "image \<Rightarrow> image \<Rightarrow> image \<Rightarrow> image" where
  "paste_mask dst src msk =
     dst\<lparr>getpixel := (\<lambda>p. map (\<lambda>(d, c). BLEND (last (getpixel msk p)) d c)
                              (zip (getpixel dst p) (colour_bands src p)))\<rparr>"

text \<open>
  Modelled from the spec: \<open>img.resize(size, filter)\<close> gives an image of the requested
  size and raises (here \<open>None\<close>) when a side is smaller than 1.
\<close>

definition resize :: "pillow \<Rightarrow> image \<Rightarrow> int \<times> int \<Rightarrow> resampling \<Rightarrow> image option" where
  "resize lib img sz flt =
     (if fst sz < 1 \<or> snd sz < 1 then None
      else Some \<lparr>mode = mode img, img_size = sz, getpixel = resample lib flt img sz\<rparr>)"

text \<open>
  Modelled from the spec: \<open>ImageOps.expand(img, border=b, fill=colour)\<close> makes a canvas of
  the fill colour, larger by \<open>b\<close> on each of the four sides, and pastes the image at
  \<open>(b, b)\<close>; a canvas of negative size raises (here \<open>None\<close>).
\<close>

definition ImageOps_expand :: "image \<Rightarrow> int \<Rightarrow> pixel \<Rightarrow> image option" where
  "ImageOps_expand img b fill =
     (let w = b + fst (img_size img) + b; h = b + snd (img_size img) + b
      in if w < 0 \<or> h < 0 then None
         else Some (paste_at (Image_new (mode img) (w, h) fill) img (b, b)))"

section \<open>Layout settings\<close>

text \<open>
  The layout settings of \<open>process\<close> (lines 42 to 49). The program fixes them; the steps
  below read them as variables, so they are stated for any values.
\<close>

record layout =
  passport_width :: int
  passport_height :: int
  border :: int
  spacing :: int
  margin_x :: int
  margin_y :: int
  horizontal_gap :: int
  a4_w :: int
  a4_h :: int

definition default_layout :: layout where
  "default_layout =
     \<lparr>passport_width = 384, passport_height = 472, border = 2, spacing = 25,
      margin_x = 10, margin_y = 15, horizontal_gap = 20, a4_w = 2480, a4_h = 3508\<rparr>"

definition paste_w :: "layout \<Rightarrow> int" where
  "paste_w L = passport_width L + 2 * border L"

definition paste_h :: "layout \<Rightarrow> int" where
  "paste_h L = passport_height L + 2 * border L"

section \<open>Preparing the tile\<close>

text \<open>
  Lines 79 to 85, and again lines 123 to 129: an image with an alpha channel is pasted on
  a white canvas of its size through its own last band; any other image is converted.
\<close>

definition flatten :: "pillow \<Rightarrow> image \<Rightarrow> image" where
  "flatten lib img =
     (if mode img \<in> {''RGBA'', ''LA''}
      then let background = Image_new ''RGB'' (img_size img) white
           in paste_mask background img (last_band img)
      else convert lib img ''RGB'')"

text \<open>Step 5, lines 132 and 133: resize, then the border.\<close>

definition make_tile :: "pillow \<Rightarrow> layout \<Rightarrow> image \<Rightarrow> image option" where
  "make_tile lib L img =
     (case resize lib img (passport_width L, passport_height L) LANCZOS of
        None \<Rightarrow> None
      | Some passport_img \<Rightarrow> ImageOps_expand passport_img (border L) black)"

section \<open>Filling the page\<close>

text \<open>
  The state of the loop of lines 145 to 157: the cursor \<open>x\<close>, \<open>y\<close> (here \<open>pos_x\<close>,
  \<open>pos_y\<close>), the counter \<open>placed\<close>, the page \<open>a4\<close>, and the positions of the calls of
  \<open>a4.paste\<close> in the order they were made (the lines the loop prints).
\<close>

record fill_state =
  pos_x :: int
  pos_y :: int
  placed :: int
  a4 :: image
  pasted :: "(int \<times> int) list"

datatype 'a loop = Continue 'a | Break 'a

text \<open>\<open>for _ in range(n)\<close> with \<open>break\<close>: at most \<open>n\<close> runs of the body.\<close>

fun for_range :: "nat \<Rightarrow> ('a \<Rightarrow> 'a loop) \<Rightarrow> 'a \<Rightarrow> 'a" where
  "for_range 0 body s = s"
| "for_range (Suc n) body s =
     (case body s of Break s' \<Rightarrow> s' | Continue s' \<Rightarrow> for_range n body s')"

text \<open>The body of the loop: the wrap check, the end-of-page check, the paste.\<close>

definition place_one :: "layout \<Rightarrow> image \<Rightarrow> fill_state \<Rightarrow> fill_state loop" where
  "place_one L passport_img s =
     (let s1 = (if pos_x s + paste_w L > a4_w L
                then s\<lparr>pos_x := margin_x L, pos_y := pos_y s + (paste_h L + spacing L)\<rparr>
                else s)
      in if pos_y s1 + paste_h L > a4_h L then Break s1
         else Continue
           (s1\<lparr>a4 := paste_at (a4 s1) passport_img (pos_x s1, pos_y s1),
               pasted := pasted s1 @ [(pos_x s1, pos_y s1)],
               pos_x := pos_x s1 + (paste_w L + horizontal_gap L),
               placed := placed s1 + 1\<rparr>))"

definition fill_init :: "layout \<Rightarrow> fill_state" where
  "fill_init L =
     \<lparr>pos_x = margin_x L, pos_y = margin_y L, placed = 0,
      a4 = Image_new ''RGB'' (a4_w L, a4_h L) white, pasted = []\<rparr>"

text \<open>
  Step 6 of \<open>process\<close>. \<open>range(copies)\<close> is empty for \<open>copies \<le> 0\<close>, which is what
  \<open>nat\<close> gives.
\<close>

definition fill_a4 :: "layout \<Rightarrow> image \<Rightarrow> int \<Rightarrow> fill_state" where
  "fill_a4 L passport_img copies =
     for_range (nat copies) (place_one L passport_img) (fill_init L)"

section \<open>The answer to a failed background removal\<close>

text \<open>
  What \<open>response.json()\<close> returns: a Python value read from JSON. An object is the list
  of its entries, with distinct keys as in a Python dict. Of a number only whether it is
  zero is read here, so integers stand for all numbers.
\<close>

datatype json = JNull | JBool bool | JNum int | JStr string | JArr "json list"
  | JObj "(string \<times> json) list"

text \<open>Python's truth value of such a value, as \<open>if error_info.get("errors")\<close> reads it.\<close>

fun truthy :: "json \<Rightarrow> bool" where
  "truthy JNull = False"
| "truthy (JBool b) = b"
| "truthy (JNum n) = (n \<noteq> 0)"
| "truthy (JStr s) = (s \<noteq> [])"
| "truthy (JArr xs) = (xs \<noteq> [])"
| "truthy (JObj kvs) = (kvs \<noteq> [])"

text \<open>
  \<open>v.get(k, dflt)\<close>, \<open>v[k]\<close> for a string key and \<open>v[0]\<close>. \<open>None\<close> is an exception:
  only a dict has \<open>get\<close>; no dict read from JSON has the key \<open>0\<close>; a number, a boolean
  and \<open>None\<close> have no items; an empty list or string has no first item.
\<close>

fun dict_get :: "json \<Rightarrow> string \<Rightarrow> json \<Rightarrow> json option" where
  "dict_get (JObj kvs) k dflt = Some (case map_of kvs k of None \<Rightarrow> dflt | Some v \<Rightarrow> v)"
| "dict_get _ k dflt = None"

fun subscript :: "json \<Rightarrow> string \<Rightarrow> json option" where
  "subscript (JObj kvs) k = map_of kvs k"
| "subscript _ k = None"

fun first_item :: "json \<Rightarrow> json option" where
  "first_item (JArr (v # _)) = Some v"
| "first_item (JStr (c # _)) = Some (JStr [c])"
| "first_item _ = None"

text \<open>
  The \<open>try\<close> block of lines 65 to 69 ends in one of three ways: an exception, which the
  \<open>except Exception\<close> clause catches; the \<open>return\<close> of line 69; or the end of the
  block, when the \<open>if\<close> of line 67 fails. The argument is the outcome of
  \<open>response.json()\<close>, \<open>None\<close> when it raises.
\<close>

datatype 'a attempt = Raised | Returned 'a | Passed

fun parse_error_code :: "json option \<Rightarrow> json attempt" where
  "parse_error_code None = Raised"
| "parse_error_code (Some error_info) =
     (case dict_get error_info ''errors'' JNull of
        None \<Rightarrow> Raised
      | Some errs \<Rightarrow>
          if truthy errs then
            (case subscript error_info ''errors'' of
               None \<Rightarrow> Raised
             | Some errors \<Rightarrow>
                 (case first_item errors of
                    None \<Rightarrow> Raised
                  | Some first_error \<Rightarrow>
                      (case dict_get first_error ''code'' (JStr ''unknown_error'') of
                         None \<Rightarrow> Raised
                       | Some error_code \<Rightarrow> Returned error_code)))
          else Passed)"

text \<open>
  What \<open>process\<close> returns: a text with a status, a dict (sent as JSON) with a status, or
  the PDF of a page. \<open>Unhandled\<close> is an exception that leaves \<open>process\<close>.
\<close>

datatype reply = Text string int | Json json int | Pdf image | Unhandled

text \<open>Lines 63 to 73, once the status is known not to be 200.\<close>

definition bg_removal_failed :: "json option \<Rightarrow> reply" where
  "bg_removal_failed body =
     (case parse_error_code body of
        Returned error_code \<Rightarrow> Json (JObj [(''error'', error_code)]) 410
      | _ \<Rightarrow> Json (JObj [(''error'', JStr ''bg_removal_failed'')]) 500)"

section \<open>The pipeline\<close>

text \<open>
  The request: the bytes of the uploaded file, if there is one, and the form field
  \<open>copies\<close> as \<open>int(request.form.get("copies", 6))\<close> reads it: absent, not a number
  (\<open>int\<close> raises), or a number.
\<close>

datatype form_int = Absent | Malformed | Given int

record request =
  image_file :: "string option"
  copies_field :: form_int

text \<open>
  What the collaborators answer in a run in which every outbound call returns and every
  downloaded image decodes: the status and the parsed body of the answer of remove.bg
  (\<open>None\<close> when \<open>response.json()\<close> raises), the image decoded from its content,
  the \<open>secure_url\<close> of the upload result (\<open>None\<close> when the result has none), and the
  image decoded from the enhanced download.
\<close>

record world =
  removal_status :: int
  removal_json :: "json option"
  removal_image :: image
  upload_secure_url :: "string option"
  enhanced_image :: image

text \<open>The outbound calls and the export, in the order \<open>process\<close> makes them.\<close>

datatype call = RemoveBg string | Upload image | FetchEnhanced | SavePdf image

definition process :: "pillow \<Rightarrow> world \<Rightarrow> request \<Rightarrow> reply \<times> call list" where
  "process lib w req =
     (case image_file req of
        None \<Rightarrow> (Text ''No image uploaded'' 400, [])
      | Some input_image \<Rightarrow>
     (case (case copies_field req of
              Absent \<Rightarrow> Some 6 | Malformed \<Rightarrow> None | Given n \<Rightarrow> Some n) of
        None \<Rightarrow> (Unhandled, [])
      | Some copies \<Rightarrow>
     if removal_status w \<noteq> 200
     then (bg_removal_failed (removal_json w), [RemoveBg input_image])
     else
       let processed_img = flatten lib (removal_image w) in
       if upload_secure_url w = None \<or> upload_secure_url w = Some []
       then (Text ''Cloudinary upload failed'' 500,
             [RemoveBg input_image, Upload processed_img])
       else
         (case make_tile lib default_layout (flatten lib (enhanced_image w)) of
            None \<Rightarrow> (Unhandled, [RemoveBg input_image, Upload processed_img, FetchEnhanced])
          | Some passport_img \<Rightarrow>
              let page = a4 (fill_a4 default_layout passport_img copies)
              in (Pdf page,
                  [RemoveBg input_image, Upload processed_img, FetchEnhanced,
                   SavePdf page]))))"

section \<open>The vocabulary of the properties\<close>

text \<open>The layout parameters are non-negative integers.\<close>

definition wf_layout :: "layout \<Rightarrow> bool" where
  "wf_layout L \<longleftrightarrow>
     0 \<le> passport_width L \<and> 0 \<le> passport_height L \<and> 0 \<le> border L \<and> 0 \<le> spacing L \<and>
     0 \<le> margin_x L \<and> 0 \<le> margin_y L \<and> 0 \<le> horizontal_gap L \<and> 0 \<le> a4_w L \<and> 0 \<le> a4_h L"

text \<open>The bounding box of a tile pasted at \<open>p\<close> lies within the page.\<close>

definition in_page :: "layout \<Rightarrow> int \<times> int \<Rightarrow> bool" where
  "in_page L p \<longleftrightarrow>
     0 \<le> fst p \<and> 0 \<le> snd p \<and> fst p + paste_w L \<le> a4_w L \<and> snd p + paste_h L \<le> a4_h L"

text \<open>
  A later tile \<open>q\<close> is in the row of \<open>p\<close> and at least one tile and one gap to its right,
  or at least one tile and one spacing below it.
\<close>

definition separated :: "layout \<Rightarrow> int \<times> int \<Rightarrow> int \<times> int \<Rightarrow> bool" where
  "separated L p q \<longleftrightarrow>
     (snd q = snd p \<and> fst p + (paste_w L + horizontal_gap L) \<le> fst q) \<or>
     snd p + (paste_h L + spacing L) \<le> snd q"

text \<open>The bounding boxes of the tiles pasted at \<open>p\<close> and at \<open>q\<close> share a pixel.\<close>

definition overlaps :: "layout \<Rightarrow> int \<times> int \<Rightarrow> int \<times> int \<Rightarrow> bool" where
  "overlaps L p q \<longleftrightarrow>
     fst p < fst q + paste_w L \<and> fst q < fst p + paste_w L \<and>
     snd p < snd q + paste_h L \<and> snd q < snd p + paste_h L"

text \<open>Row-major order of positions: top to bottom, then left to right.\<close>

definition row_major_less :: "int \<times> int \<Rightarrow> int \<times> int \<Rightarrow> bool" where
  "row_major_less p q \<longleftrightarrow> snd p < snd q \<or> (snd p = snd q \<and> fst p < fst q)"

text \<open>
  The capacity of the page, in the spec's words the most tiles the flow layout can place:
  the tiles of a full row, by the spec's formula
  \<open>floor((pageWidth - marginX + gap) / (footprint + gap))\<close>, times the rows of a page by
  the same formula downwards. Where a step of the cursor is zero (a tile without width
  and without gap, or without height and without spacing) no number of tiles fills the
  page, and the capacity is infinite.
\<close>

definition tiles_per_row :: "layout \<Rightarrow> int" where
  "tiles_per_row L =
     (a4_w L - margin_x L + horizontal_gap L) div (paste_w L + horizontal_gap L)"

definition rows_per_page :: "layout \<Rightarrow> int" where
  "rows_per_page L = (a4_h L - margin_y L + spacing L) div (paste_h L + spacing L)"

definition capacity :: "layout \<Rightarrow> enat" where
  "capacity L =
     (if paste_w L + horizontal_gap L = 0 \<or> paste_h L + spacing L = 0 then \<infinity>
      else enat (nat (tiles_per_row L * rows_per_page L)))"

text \<open>
  The provider's first structured error code, in the spec's words: the \<open>code\<close> of the
  first entry of the list \<open>errors\<close> of the body, when the body has one.
\<close>

fun spec_first_error_code :: "json option \<Rightarrow> json option" where
  "spec_first_error_code (Some (JObj kvs)) =
     (case map_of kvs ''errors'' of
        Some (JArr (JObj e # _)) \<Rightarrow> map_of e ''code''
      | _ \<Rightarrow> None)"
| "spec_first_error_code _ = None"

text \<open>The first entry of that list, when the body has one and it is an object.\<close>

fun first_error_entry :: "json option \<Rightarrow> (string \<times> json) list option" where
  "first_error_entry (Some (JObj kvs)) =
     (case map_of kvs ''errors'' of
        Some (JArr (JObj e # _)) \<Rightarrow> Some e
      | _ \<Rightarrow> None)"
| "first_error_entry _ = None"

subsection \<open>Auxiliary notions of the proofs\<close>

text \<open>The cursor after the wrap check of one run of the body.\<close>

definition wrapped :: "layout \<Rightarrow> fill_state \<Rightarrow> int \<times> int" where
  "wrapped L s =
     (if pos_x s + paste_w L > a4_w L then (margin_x L, pos_y s + (paste_h L + spacing L))
      else (pos_x s, pos_y s))"

definition cursor_inv :: "layout \<Rightarrow> fill_state \<Rightarrow> bool" where
  "cursor_inv L s \<longleftrightarrow>
     margin_x L \<le> pos_x s \<and> margin_y L \<le> pos_y s \<and> (\<forall>p \<in> set (pasted s). in_page L p)"

definition sep_inv :: "layout \<Rightarrow> fill_state \<Rightarrow> bool" where
  "sep_inv L s \<longleftrightarrow>
     sorted_wrt (separated L) (pasted s) \<and>
     (\<forall>p \<in> set (pasted s). separated L p (pos_x s, pos_y s))"

subsection \<open>Sample inputs\<close>

definition sample_tile :: image where
  "sample_tile = Image_new ''RGB'' (388, 476) black"

definition wide_layout :: layout where
  "wide_layout = default_layout\<lparr>passport_width := 3000\<rparr>"

definition tall_layout :: layout where
  "tall_layout = default_layout\<lparr>passport_height := 4000\<rparr>"

definition sample_lib :: pillow where
  "sample_lib = \<lparr>convert_pixels = (\<lambda>img md p. take 3 (getpixel img p)),
                 resample = (\<lambda>flt img sz p. getpixel img (0, 0))\<rparr>"

definition sample_rgba :: image where
  "sample_rgba = \<lparr>mode = ''RGBA'', img_size = (2, 1),
      getpixel = (\<lambda>p. if p = (0, 0) then [10, 20, 30, 0] else [10, 20, 30, 255])\<rparr>"

definition sample_rgb :: image where
  "sample_rgb = flatten sample_lib sample_rgba"

definition sample_passport :: image where
  "sample_passport =
     paste_at (Image_new ''RGB'' (388, 476) black)
       \<lparr>mode = ''RGB'', img_size = (384, 472),
        getpixel = resample sample_lib LANCZOS sample_rgb (384, 472)\<rparr> (2, 2)"

definition body_with_code :: json where
  "body_with_code =
     JObj [(''errors'', JArr [JObj [(''title'', JStr ''No foreground''),
                                    (''code'', JStr ''unknown_foreground'')]])]"

definition body_without_code :: json where
  "body_without_code = JObj [(''errors'', JArr [JObj [(''title'', JStr ''File too large'')]])]"

definition sample_request :: request where
  "sample_request = \<lparr>image_file = Some ''photo'', copies_field = Absent\<rparr>"

definition refusing_world :: "json \<Rightarrow> world" where
  "refusing_world body =
     \<lparr>removal_status = 400, removal_json = Some body, removal_image = sample_rgba,
      upload_secure_url = Some ''https://res.example/photo.png'',
      enhanced_image = sample_rgba\<rparr>"

definition accepting_world :: world where
  "accepting_world =
     \<lparr>removal_status = 200, removal_json = None, removal_image = sample_rgba,
      upload_secure_url = Some ''https://res.example/photo.png'',
      enhanced_image = sample_rgba\<rparr>"

section \<open>The loop, one run at a time\<close>

lemma for_range_invariant:
  assumes "I s"
    and "\<And>s s'. I s \<Longrightarrow> body s = Continue s' \<Longrightarrow> I s'"
    and "\<And>s s'. I s \<Longrightarrow> body s = Break s' \<Longrightarrow> I s'"
  shows "I (for_range n body s)"
  using assms(1)
proof (induction n arbitrary: s)
  case 0
  then show ?case by simp
next
  case (Suc n)
  show ?case
  proof (cases "body s")
    case (Continue s')
    with Suc assms(2) show ?thesis by simp
  next
    case (Break s')
    with Suc assms(3) show ?thesis by simp
  qed
qed

lemma place_one_Break:
  assumes "place_one L t s = Break s'"
  shows "pasted s' = pasted s" "placed s' = placed s" "a4 s' = a4 s"
    "snd (wrapped L s) + paste_h L > a4_h L"
  using assms by (auto simp: place_one_def wrapped_def Let_def split: if_splits)

lemma place_one_Continue:
  assumes "place_one L t s = Continue s'"
  shows "pasted s' = pasted s @ [wrapped L s]" "placed s' = placed s + 1"
    "pos_x s' = fst (wrapped L s) + (paste_w L + horizontal_gap L)"
    "pos_y s' = snd (wrapped L s)"
    "snd (wrapped L s) + paste_h L \<le> a4_h L"
  using assms by (auto simp: place_one_def wrapped_def Let_def split: if_splits)

lemma place_one_cases:
  "(snd (wrapped L s) + paste_h L > a4_h L \<and> (\<exists>s'. place_one L t s = Break s')) \<or>
   (snd (wrapped L s) + paste_h L \<le> a4_h L \<and> (\<exists>s'. place_one L t s = Continue s'))"
  by (auto simp: place_one_def wrapped_def Let_def)

lemma placed_length_pasted: "placed (fill_a4 L t copies) = int (length (pasted (fill_a4 L t copies)))"
proof -
  have "(\<lambda>s. placed s = int (length (pasted s)))
          (for_range (nat copies) (place_one L t) (fill_init L))"
  proof (rule for_range_invariant)
    show "placed (fill_init L) = int (length (pasted (fill_init L)))"
      by (simp add: fill_init_def)
  next
    fix s s' assume "placed s = int (length (pasted s))" "place_one L t s = Continue s'"
    then show "placed s' = int (length (pasted s'))"
      using place_one_Continue(1,2)[of L t s s'] by simp
  next
    fix s s' assume "placed s = int (length (pasted s))" "place_one L t s = Break s'"
    then show "placed s' = int (length (pasted s'))"
      using place_one_Break(1,2)[of L t s s'] by simp
  qed
  then show ?thesis by (simp add: fill_a4_def)
qed

lemma placed_mono: "placed s \<le> placed (for_range n (place_one L t) s)"
proof -
  have "(\<lambda>u. placed s \<le> placed u) (for_range n (place_one L t) s)"
  proof (rule for_range_invariant)
    fix u u' assume "placed s \<le> placed u" "place_one L t u = Continue u'"
    then show "placed s \<le> placed u'" using place_one_Continue(2)[of L t u u'] by simp
  next
    fix u u' assume "placed s \<le> placed u" "place_one L t u = Break u'"
    then show "placed s \<le> placed u'" using place_one_Break(2)[of L t u u'] by simp
  qed simp
  then show ?thesis .
qed

lemma place_one_Continue_page:
  assumes "place_one L t s = Continue s'"
  shows "a4 s' = paste_at (a4 s) t (wrapped L s)"
  using assms by (auto simp: place_one_def wrapped_def Let_def split: if_splits)

text \<open>The page is the white canvas with the tile pasted at each logged position, in order.\<close>

lemma page_is_fold_of_log:
  "a4 (fill_a4 L t copies) =
     foldl (\<lambda>page p. paste_at page t p) (Image_new ''RGB'' (a4_w L, a4_h L) white)
       (pasted (fill_a4 L t copies))"
proof -
  let ?blank = "Image_new ''RGB'' (a4_w L, a4_h L) white"
  have "(\<lambda>s. a4 s = foldl (\<lambda>page p. paste_at page t p) ?blank (pasted s))
          (for_range (nat copies) (place_one L t) (fill_init L))"
  proof (rule for_range_invariant)
    show "a4 (fill_init L) = foldl (\<lambda>page p. paste_at page t p) ?blank (pasted (fill_init L))"
      by (simp add: fill_init_def)
  next
    fix s s'
    assume "a4 s = foldl (\<lambda>page p. paste_at page t p) ?blank (pasted s)"
      and c: "place_one L t s = Continue s'"
    then show "a4 s' = foldl (\<lambda>page p. paste_at page t p) ?blank (pasted s')"
      using place_one_Continue(1)[OF c] place_one_Continue_page[OF c] by simp
  next
    fix s s'
    assume "a4 s = foldl (\<lambda>page p. paste_at page t p) ?blank (pasted s)"
      and b: "place_one L t s = Break s'"
    then show "a4 s' = foldl (\<lambda>page p. paste_at page t p) ?blank (pasted s')"
      using place_one_Break(1,3)[OF b] by simp
  qed
  then show ?thesis by (simp add: fill_a4_def)
qed

text \<open>A tile is made only of a positive width and height: \<open>resize\<close> raises otherwise.\<close>

lemma make_tile_Some_positive:
  assumes "make_tile lib L img = Some tile"
  shows "1 \<le> passport_width L" "1 \<le> passport_height L"
  using assms by (auto simp: make_tile_def resize_def split: if_splits option.splits)

lemma make_tile_sample:
  "make_tile sample_lib default_layout sample_rgb = Some sample_passport"
  by (simp add: make_tile_def resize_def ImageOps_expand_def sample_passport_def
      default_layout_def sample_rgb_def flatten_def sample_rgba_def paste_mask_def
      Image_new_def Let_def)

lemmas layout_simps =
  default_layout_def wide_layout_def tall_layout_def
  wf_layout_def paste_w_def paste_h_def

lemmas fill_simps = fill_a4_def fill_init_def place_one_def eval_nat_numeral

subsection \<open>Runs on sample layouts\<close>

lemma default_six_pasted:
  "pasted (fill_a4 default_layout t 6) =
     [(10, 15), (418, 15), (826, 15), (1234, 15), (1642, 15), (2050, 15)]"
  by (simp add: fill_simps layout_simps)

lemma wide_one_pasted: "pasted (fill_a4 wide_layout t 1) = [(10, 516)]"
  by (simp add: fill_simps layout_simps)

section \<open>Where the tiles are pasted\<close>

lemma pasted_in_page:
  assumes wf: "wf_layout L" and fit: "margin_x L + paste_w L \<le> a4_w L"
  shows "\<forall>p \<in> set (pasted (fill_a4 L t copies)). in_page L p"
proof -
  have stride: "0 \<le> paste_w L + horizontal_gap L" "0 \<le> paste_h L + spacing L"
    using wf by (auto simp: wf_layout_def paste_w_def paste_h_def)
  have m: "0 \<le> margin_x L" "0 \<le> margin_y L" using wf by (auto simp: wf_layout_def)
  have "cursor_inv L (for_range (nat copies) (place_one L t) (fill_init L))"
  proof (rule for_range_invariant)
    show "cursor_inv L (fill_init L)" by (simp add: cursor_inv_def fill_init_def)
  next
    fix s s' assume I: "cursor_inv L s" and c: "place_one L t s = Continue s'"
    have w: "margin_x L \<le> fst (wrapped L s)" "margin_y L \<le> snd (wrapped L s)"
      "fst (wrapped L s) + paste_w L \<le> a4_w L"
      using I stride fit by (auto simp: cursor_inv_def wrapped_def)
    have "in_page L (wrapped L s)"
      using w m place_one_Continue(5)[OF c] by (simp add: in_page_def)
    then show "cursor_inv L s'"
      using I w stride place_one_Continue[OF c] by (simp add: cursor_inv_def)
  next
    fix s s' assume I: "cursor_inv L s" and b: "place_one L t s = Break s'"
    have "pos_x s' = fst (wrapped L s)" "pos_y s' = snd (wrapped L s)"
      using b by (auto simp: place_one_def wrapped_def Let_def split: if_splits)
    moreover have "margin_x L \<le> fst (wrapped L s)" "margin_y L \<le> snd (wrapped L s)"
      using I stride by (auto simp: cursor_inv_def wrapped_def)
    ultimately show "cursor_inv L s'"
      using I place_one_Break(1)[OF b] by (simp add: cursor_inv_def)
  qed
  then show ?thesis by (simp add: cursor_inv_def fill_a4_def)
qed

lemma separated_wrapped:
  assumes "0 \<le> paste_h L + spacing L" "separated L p (pos_x s, pos_y s)"
  shows "separated L p (wrapped L s)"
  using assms by (auto simp: separated_def wrapped_def)

lemma pasted_separated:
  assumes sx: "0 \<le> paste_w L + horizontal_gap L" and sy: "0 \<le> paste_h L + spacing L"
  shows "sorted_wrt (separated L) (pasted (fill_a4 L t copies))"
proof -
  have "sep_inv L (for_range (nat copies) (place_one L t) (fill_init L))"
  proof (rule for_range_invariant)
    show "sep_inv L (fill_init L)" by (simp add: sep_inv_def fill_init_def)
  next
    fix s s' assume I: "sep_inv L s" and c: "place_one L t s = Continue s'"
    have old: "\<forall>p \<in> set (pasted s). separated L p (wrapped L s)"
      using I separated_wrapped[OF sy] by (simp add: sep_inv_def)
    have "sorted_wrt (separated L) (pasted s')"
      using I old place_one_Continue(1)[OF c] by (simp add: sep_inv_def sorted_wrt_append)
    moreover have "\<forall>p \<in> set (pasted s'). separated L p (pos_x s', pos_y s')"
      using old sx place_one_Continue[OF c] by (auto simp: separated_def)
    ultimately show "sep_inv L s'" by (simp add: sep_inv_def)
  next
    fix s s' assume I: "sep_inv L s" and b: "place_one L t s = Break s'"
    have "(pos_x s', pos_y s') = wrapped L s"
      using b by (auto simp: place_one_def wrapped_def Let_def split: if_splits)
    then show "sep_inv L s'"
      using I separated_wrapped[OF sy] place_one_Break(1)[OF b] by (simp add: sep_inv_def)
  qed
  then show ?thesis by (simp add: sep_inv_def fill_a4_def)
qed

section \<open>How many tiles are pasted\<close>

lemma mult_le_iff_le_div:
  fixes k s N :: int
  assumes "0 < s"
  shows "k * s \<le> N \<longleftrightarrow> k \<le> N div s"
proof
  assume "k * s \<le> N"
  then have "(k * s) div s \<le> N div s" using assms by (rule zdiv_mono1)
  then show "k \<le> N div s" using assms by simp
next
  assume "k \<le> N div s"
  then have "k * s \<le> (N div s) * s" using assms by (simp add: mult_right_mono)
  also have "\<dots> \<le> N"
    using assms by (metis add.commute add_increasing2 div_mult_mod_eq order_refl pos_mod_sign)
  finally show "k * s \<le> N" .
qed

lemma column_fits_iff:
  assumes "0 < paste_w L + horizontal_gap L"
  shows "margin_x L + j * (paste_w L + horizontal_gap L) + paste_w L \<le> a4_w L
         \<longleftrightarrow> j < tiles_per_row L"
proof -
  have "margin_x L + j * (paste_w L + horizontal_gap L) + paste_w L \<le> a4_w L
        \<longleftrightarrow> (j + 1) * (paste_w L + horizontal_gap L) \<le> a4_w L - margin_x L + horizontal_gap L"
    by (simp add: algebra_simps)
  also have "\<dots> \<longleftrightarrow> j + 1 \<le> tiles_per_row L"
    unfolding tiles_per_row_def by (rule mult_le_iff_le_div[OF assms])
  finally show ?thesis by linarith
qed

lemma row_fits_iff:
  assumes "0 < paste_h L + spacing L"
  shows "margin_y L + i * (paste_h L + spacing L) + paste_h L \<le> a4_h L
         \<longleftrightarrow> i < rows_per_page L"
proof -
  have "margin_y L + i * (paste_h L + spacing L) + paste_h L \<le> a4_h L
        \<longleftrightarrow> (i + 1) * (paste_h L + spacing L) \<le> a4_h L - margin_y L + spacing L"
    by (simp add: algebra_simps)
  also have "\<dots> \<longleftrightarrow> i + 1 \<le> rows_per_page L"
    unfolding rows_per_page_def by (rule mult_le_iff_le_div[OF assms])
  finally show ?thesis by linarith
qed

lemma placed_from_cell:
  assumes sx: "0 < paste_w L + horizontal_gap L" and sy: "0 < paste_h L + spacing L"
    and c1: "1 \<le> tiles_per_row L"
  shows "pos_x s = margin_x L + j * (paste_w L + horizontal_gap L) \<Longrightarrow>
         pos_y s = margin_y L + i * (paste_h L + spacing L) \<Longrightarrow>
         0 \<le> j \<Longrightarrow> j \<le> tiles_per_row L \<Longrightarrow> i < rows_per_page L \<Longrightarrow>
         placed (for_range n (place_one L t) s)
         = placed s + min (int n) ((rows_per_page L - i) * tiles_per_row L - j)"
proof (induction n arbitrary: s i j)
  case 0
  have "0 \<le> (rows_per_page L - i - 1) * tiles_per_row L"
    using "0.prems" c1 by simp
  then have "j \<le> (rows_per_page L - i) * tiles_per_row L"
    using "0.prems" by (simp add: algebra_simps)
  then show ?case by simp
next
  case (Suc n)
  let ?c = "tiles_per_row L" and ?r = "rows_per_page L"
  show ?case
  proof (cases "j < ?c")
    case True
    then have nowrap: "wrapped L s = (pos_x s, pos_y s)"
      using column_fits_iff[OF sx, of j] Suc.prems by (simp add: wrapped_def)
    have "snd (wrapped L s) + paste_h L \<le> a4_h L"
      using row_fits_iff[OF sy, of i] Suc.prems nowrap by simp
    then obtain s' where c: "place_one L t s = Continue s'"
      using place_one_cases[of L s t] by auto
    have "placed (for_range n (place_one L t) s')
          = placed s' + min (int n) ((?r - i) * ?c - (j + 1))"
    proof (rule Suc.IH)
      show "pos_x s' = margin_x L + (j + 1) * (paste_w L + horizontal_gap L)"
        using place_one_Continue(3)[OF c] nowrap Suc.prems by (simp add: algebra_simps)
      show "pos_y s' = margin_y L + i * (paste_h L + spacing L)"
        using place_one_Continue(4)[OF c] nowrap Suc.prems by simp
    qed (use True Suc.prems in auto)
    then show ?thesis using c place_one_Continue(2)[OF c] by simp
  next
    case False
    then have jc: "j = ?c" using Suc.prems by simp
    have wrap: "wrapped L s = (margin_x L, margin_y L + (i + 1) * (paste_h L + spacing L))"
      using column_fits_iff[OF sx, of j] Suc.prems False
      by (simp add: wrapped_def algebra_simps)
    show ?thesis
    proof (cases "i + 1 < ?r")
      case True
      have "snd (wrapped L s) + paste_h L \<le> a4_h L"
        using row_fits_iff[OF sy, of "i + 1"] True wrap by simp
      then obtain s' where c: "place_one L t s = Continue s'"
        using place_one_cases[of L s t] by auto
      have "placed (for_range n (place_one L t) s')
            = placed s' + min (int n) ((?r - (i + 1)) * ?c - 1)"
      proof (rule Suc.IH)
        show "pos_x s' = margin_x L + 1 * (paste_w L + horizontal_gap L)"
          using place_one_Continue(3)[OF c] wrap by simp
        show "pos_y s' = margin_y L + (i + 1) * (paste_h L + spacing L)"
          using place_one_Continue(4)[OF c] wrap by simp
      qed (use True c1 in auto)
      moreover have "(?r - i) * ?c - j = (?r - (i + 1)) * ?c"
        using jc by (simp add: algebra_simps)
      ultimately show ?thesis using c place_one_Continue(2)[OF c] by simp
    next
      case False
      then have ir: "?r - i = 1" using Suc.prems by simp
      have "snd (wrapped L s) + paste_h L > a4_h L"
        using row_fits_iff[OF sy, of "i + 1"] False wrap by simp
      then obtain s' where b: "place_one L t s = Break s'"
        using place_one_cases[of L s t] by auto
      have "(?r - i) * ?c - j = 0" using jc ir by simp
      then show ?thesis using b place_one_Break(2)[OF b] by simp
    qed
  qed
qed

lemma placed_unbounded:
  assumes deg: "paste_w L + horizontal_gap L = 0 \<or> paste_h L + spacing L = 0"
    and sy: "0 \<le> paste_h L + spacing L"
    and fx: "margin_x L + paste_w L \<le> a4_w L" and fy: "margin_y L + paste_h L \<le> a4_h L"
  shows "pos_y s = margin_y L \<Longrightarrow>
         (paste_h L + spacing L \<noteq> 0 \<Longrightarrow> pos_x s = margin_x L) \<Longrightarrow>
         placed (for_range n (place_one L t) s) = placed s + int n"
proof (induction n arbitrary: s)
  case 0
  then show ?case by simp
next
  case (Suc n)
  have w: "snd (wrapped L s) = margin_y L"
    "paste_h L + spacing L \<noteq> 0 \<Longrightarrow> fst (wrapped L s) = margin_x L"
  proof -
    show "snd (wrapped L s) = margin_y L"
    proof (cases "paste_h L + spacing L = 0")
      case True
      then show ?thesis using Suc.prems(1) by (simp add: wrapped_def)
    next
      case False
      then show ?thesis using Suc.prems fx by (simp add: wrapped_def)
    qed
    show "fst (wrapped L s) = margin_x L" if "paste_h L + spacing L \<noteq> 0"
      using that Suc.prems fx by (simp add: wrapped_def)
  qed
  then obtain s' where c: "place_one L t s = Continue s'"
    using place_one_cases[of L s t] fy by auto
  have "placed (for_range n (place_one L t) s') = placed s' + int n"
  proof (rule Suc.IH)
    show "pos_y s' = margin_y L" using place_one_Continue(4)[OF c] w by simp
    show "pos_x s' = margin_x L" if "paste_h L + spacing L \<noteq> 0"
      using that place_one_Continue(3)[OF c] w deg by simp
  qed
  then show ?case using c place_one_Continue(2)[OF c] by simp
qed

lemma placed_closed_form:
  assumes wf: "wf_layout L"
    and fx: "margin_x L + paste_w L \<le> a4_w L" and fy: "margin_y L + paste_h L \<le> a4_h L"
  shows "placed (fill_a4 L t copies) =
     (case capacity L of enat c \<Rightarrow> min (int (nat copies)) (int c) | \<infinity> \<Rightarrow> int (nat copies))"
proof (cases "paste_w L + horizontal_gap L = 0 \<or> paste_h L + spacing L = 0")
  case True
  have "0 \<le> paste_h L + spacing L" using wf by (simp add: wf_layout_def paste_h_def)
  from placed_unbounded[OF True this fx fy, of "fill_init L" "nat copies" t]
  have "placed (fill_a4 L t copies) = int (nat copies)"
    by (simp add: fill_a4_def fill_init_def)
  then show ?thesis using True by (simp add: capacity_def)
next
  case False
  then have sx: "0 < paste_w L + horizontal_gap L" and sy: "0 < paste_h L + spacing L"
    using wf by (auto simp: wf_layout_def paste_w_def paste_h_def)
  have c1: "1 \<le> tiles_per_row L"
    using column_fits_iff[OF sx, of 0] fx by simp
  have r1: "0 < rows_per_page L"
    using row_fits_iff[OF sy, of 0] fy by simp
  from placed_from_cell[OF sx sy c1, of "fill_init L" 0 0 "nat copies" t] r1 c1
  have "placed (fill_a4 L t copies)
        = min (int (nat copies)) (rows_per_page L * tiles_per_row L)"
    by (simp add: fill_a4_def fill_init_def)
  moreover have "0 \<le> tiles_per_row L * rows_per_page L" using c1 r1 by simp
  ultimately show ?thesis using False by (simp add: capacity_def mult.commute)
qed

lemma capacity_default: "capacity default_layout = enat 42"
  by (simp add: capacity_def tiles_per_row_def rows_per_page_def layout_simps)

text \<open>
  The capacity is the most the loop places: no number of copies places more, and asking
  for as many copies places them all.
\<close>

lemma capacity_is_maximum:
  assumes "wf_layout L" "margin_x L + paste_w L \<le> a4_w L" "margin_y L + paste_h L \<le> a4_h L"
    and "capacity L = enat c"
  shows "placed (fill_a4 L t copies) \<le> int c" "placed (fill_a4 L t (int c)) = int c"
  using placed_closed_form[OF assms(1-3), of t copies] placed_closed_form[OF assms(1-3), of t "int c"]
    assms(4) by simp_all

section \<open>The properties of the page compositor\<close>

text \<open>
  C1: for non-negative layout parameters under which one tile fits on the page
  (\<open>margin_x + paste_w \<le> a4_w\<close> and \<open>margin_y + paste_h \<le> a4_h\<close>) and
  \<open>copies \<ge> 0\<close>, the number of tiles placed is the smaller of \<open>copies\<close> and the
  capacity of the page.
\<close>

theorem placed_is_min_copies_capacity:
  assumes "wf_layout L"
    and "margin_x L + paste_w L \<le> a4_w L" and "margin_y L + paste_h L \<le> a4_h L"
    and "0 \<le> copies"
  shows "placed (fill_a4 L t copies) =
     (case capacity L of enat c \<Rightarrow> min copies (int c) | \<infinity> \<Rightarrow> copies)"
  using placed_closed_form[OF assms(1-3), of t copies] assms(4)
  by (simp split: enat.split)

theorem placed_is_min_copies_capacity_witness:
  "wf_layout default_layout
   \<and> margin_x default_layout + paste_w default_layout \<le> a4_w default_layout
   \<and> margin_y default_layout + paste_h default_layout \<le> a4_h default_layout
   \<and> (0::int) \<le> 50
   \<and> capacity default_layout = enat 42
   \<and> placed (fill_a4 default_layout sample_tile 50) = 42"
proof -
  have h: "wf_layout default_layout"
    "margin_x default_layout + paste_w default_layout \<le> a4_w default_layout"
    "margin_y default_layout + paste_h default_layout \<le> a4_h default_layout"
    "(0::int) \<le> 50"
    by (simp_all add: layout_simps)
  show ?thesis
    using h placed_is_min_copies_capacity[OF h, of sample_tile] by (simp add: capacity_default)
qed

text \<open>
  C2, amended: for non-negative layout parameters under which a tile fits between the left
  margin and the right edge (\<open>margin_x + paste_w \<le> a4_w\<close>), the bounding box of every
  tile placed lies within the page.
\<close>

theorem pasted_tiles_in_page:
  assumes "wf_layout L" and "margin_x L + paste_w L \<le> a4_w L"
    and "p \<in> set (pasted (fill_a4 L t copies))"
  shows "in_page L p"
  using pasted_in_page[OF assms(1,2)] assms(3) by blast

theorem pasted_tiles_in_page_witness:
  "wf_layout default_layout
   \<and> margin_x default_layout + paste_w default_layout \<le> a4_w default_layout
   \<and> (2050, 15) \<in> set (pasted (fill_a4 default_layout sample_tile 6))
   \<and> in_page default_layout (2050, 15)"
proof -
  have h: "wf_layout default_layout"
    "margin_x default_layout + paste_w default_layout \<le> a4_w default_layout"
    "(2050, 15) \<in> set (pasted (fill_a4 default_layout sample_tile 6))"
    by (simp_all add: default_six_pasted) (simp_all add: layout_simps)
  show ?thesis using h pasted_tiles_in_page[OF h] by simp
qed

text \<open>
  Counterexample to C2 as stated, a tile wider than the page: the wrap check moves the cursor to the
  next row and the tile is pasted there, over the right edge.
\<close>

theorem wide_tile_leaves_page:
  "wf_layout wide_layout
   \<and> pasted (fill_a4 wide_layout sample_tile 1) = [(10, 516)]
   \<and> \<not> in_page wide_layout (10, 516)"
  by (simp add: wide_one_pasted) (simp add: layout_simps in_page_def)

text \<open>
  C3, amended: for non-negative layout parameters and \<open>copies \<ge> 1\<close>, no tile is placed
  exactly when the tile is too high for the page below the top margin, or too wide for the
  page right of the left margin with no room for a second row.
\<close>

theorem no_tile_placed_iff:
  assumes "wf_layout L" and "1 \<le> copies"
  shows "(placed (fill_a4 L t copies) = 0 \<longleftrightarrow>
            paste_h L > a4_h L - margin_y L \<or>
            (paste_w L > a4_w L - margin_x L \<and> margin_y L + 2 * paste_h L + spacing L > a4_h L))
       \<and> (pasted (fill_a4 L t copies) = [] \<longleftrightarrow> placed (fill_a4 L t copies) = 0)"
proof
  obtain n where n: "nat copies = Suc n" using assms(2) by (cases "nat copies") auto
  have sy: "0 \<le> paste_h L + spacing L" using assms(1) by (simp add: wf_layout_def paste_h_def)
  let ?cond = "paste_h L > a4_h L - margin_y L \<or>
            (paste_w L > a4_w L - margin_x L \<and> margin_y L + 2 * paste_h L + spacing L > a4_h L)"
  have cond: "?cond \<longleftrightarrow> snd (wrapped L (fill_init L)) + paste_h L > a4_h L"
    using sy by (auto simp: wrapped_def fill_init_def)
  show "placed (fill_a4 L t copies) = 0 \<longleftrightarrow> ?cond"
  proof (cases "snd (wrapped L (fill_init L)) + paste_h L > a4_h L")
    case True
    then obtain s' where b: "place_one L t (fill_init L) = Break s'"
      using place_one_cases[of L "fill_init L" t] by auto
    have "placed (fill_a4 L t copies) = 0"
      using b place_one_Break(2)[OF b] n by (simp add: fill_a4_def fill_init_def)
    then show ?thesis using cond True by simp
  next
    case False
    then obtain s' where c: "place_one L t (fill_init L) = Continue s'"
      using place_one_cases[of L "fill_init L" t] by auto
    have "placed s' = 1" using place_one_Continue(2)[OF c] by (simp add: fill_init_def)
    then have "1 \<le> placed (fill_a4 L t copies)"
      using placed_mono[of s' n L t] c n by (simp add: fill_a4_def)
    then show ?thesis using cond False by simp
  qed
  show "pasted (fill_a4 L t copies) = [] \<longleftrightarrow> placed (fill_a4 L t copies) = 0"
    by (simp add: placed_length_pasted)
qed

theorem no_tile_placed_iff_witness:
  "wf_layout tall_layout \<and> (1::int) \<le> 3
   \<and> paste_h tall_layout > a4_h tall_layout - margin_y tall_layout
   \<and> placed (fill_a4 tall_layout sample_tile 3) = 0
   \<and> pasted (fill_a4 tall_layout sample_tile 3) = []"
proof -
  have h: "wf_layout tall_layout" "(1::int) \<le> 3" by (simp_all add: layout_simps)
  have t: "paste_h tall_layout > a4_h tall_layout - margin_y tall_layout"
    by (simp add: layout_simps)
  show ?thesis using h t no_tile_placed_iff[OF h, of sample_tile] by simp
qed

text \<open>
  Counterexample to C3 as stated, a tile that is too wide only: it is placed in the
  second row.
\<close>

theorem wide_tile_is_placed:
  "wf_layout wide_layout
   \<and> paste_w wide_layout > a4_w wide_layout - margin_x wide_layout
   \<and> placed (fill_a4 wide_layout sample_tile 1) = 1
   \<and> pasted (fill_a4 wide_layout sample_tile 1) = [(10, 516)]"
  by (simp add: wide_one_pasted placed_length_pasted) (simp add: layout_simps)

text \<open>
  C4: for non-negative layout parameters, of any two tiles placed the later one is in the
  same row and at least \<open>paste_w + horizontal_gap\<close> further right, or at least
  \<open>paste_h + spacing\<close> further down; so their bounding boxes do not overlap.
\<close>

theorem pasted_tiles_do_not_overlap:
  assumes "wf_layout L" and "i < j" and "j < length (pasted (fill_a4 L t copies))"
  shows "separated L (pasted (fill_a4 L t copies) ! i) (pasted (fill_a4 L t copies) ! j)
       \<and> \<not> overlaps L (pasted (fill_a4 L t copies) ! i) (pasted (fill_a4 L t copies) ! j)"
proof -
  have nn: "0 \<le> horizontal_gap L" "0 \<le> spacing L"
    "0 \<le> paste_w L + horizontal_gap L" "0 \<le> paste_h L + spacing L"
    using assms(1) by (auto simp: wf_layout_def paste_w_def paste_h_def)
  have sep: "separated L (pasted (fill_a4 L t copies) ! i) (pasted (fill_a4 L t copies) ! j)"
    using pasted_separated[OF nn(3,4), of t copies] assms(2,3) by (simp add: sorted_wrt_iff_nth_less)
  then show ?thesis using nn(1,2) by (auto simp: separated_def overlaps_def)
qed

theorem pasted_tiles_do_not_overlap_witness:
  "wf_layout default_layout \<and> (0::nat) < 1
   \<and> 1 < length (pasted (fill_a4 default_layout sample_tile 6))
   \<and> pasted (fill_a4 default_layout sample_tile 6) ! 0 = (10, 15)
   \<and> pasted (fill_a4 default_layout sample_tile 6) ! 1 = (418, 15)
   \<and> separated default_layout (10, 15) (418, 15)
   \<and> \<not> overlaps default_layout (10, 15) (418, 15)"
proof -
  have h: "wf_layout default_layout" "(0::nat) < 1"
    "1 < length (pasted (fill_a4 default_layout sample_tile 6))"
    by (simp_all add: default_six_pasted) (simp_all add: layout_simps)
  show ?thesis
    using h pasted_tiles_do_not_overlap[OF h] by (simp add: default_six_pasted)
qed

lemma pasted_row_major_strides:
  assumes "0 < paste_w L + horizontal_gap L" and "0 < paste_h L + spacing L"
    and "i < j" and "j < length (pasted (fill_a4 L t copies))"
  shows "row_major_less (pasted (fill_a4 L t copies) ! i) (pasted (fill_a4 L t copies) ! j)"
proof -
  have "separated L (pasted (fill_a4 L t copies) ! i) (pasted (fill_a4 L t copies) ! j)"
    using pasted_separated[of L t copies] assms by (simp add: sorted_wrt_iff_nth_less)
  then show ?thesis using assms(1,2) by (auto simp: separated_def row_major_less_def)
qed

text \<open>
  C6: for non-negative layout parameters and a tile that the tile preparation has made,
  every copy is placed strictly after every earlier copy in row-major order: lower, or in
  the same row and further right. In particular copy \<open>i + 1\<close> comes strictly after copy
  \<open>i\<close>.
\<close>

theorem pasted_row_major_increasing:
  assumes "wf_layout L" and "make_tile lib L img = Some tile"
    and "i < j" and "j < length (pasted (fill_a4 L tile copies))"
  shows "row_major_less (pasted (fill_a4 L tile copies) ! i) (pasted (fill_a4 L tile copies) ! j)"
proof -
  have "0 < paste_w L + horizontal_gap L" "0 < paste_h L + spacing L"
    using assms(1) make_tile_Some_positive[OF assms(2)]
    by (auto simp: wf_layout_def paste_w_def paste_h_def)
  then show ?thesis using assms(3,4) by (rule pasted_row_major_strides)
qed

theorem pasted_row_major_increasing_witness:
  "wf_layout default_layout
   \<and> make_tile sample_lib default_layout sample_rgb = Some sample_passport
   \<and> (4::nat) < 5 \<and> 5 < length (pasted (fill_a4 default_layout sample_passport 6))
   \<and> row_major_less (pasted (fill_a4 default_layout sample_passport 6) ! 4)
         (pasted (fill_a4 default_layout sample_passport 6) ! 5)"
proof -
  have h: "wf_layout default_layout"
    "make_tile sample_lib default_layout sample_rgb = Some sample_passport"
    "(4::nat) < 5" "5 < length (pasted (fill_a4 default_layout sample_passport 6))"
    by (simp_all add: default_six_pasted make_tile_sample) (simp_all add: layout_simps)
  from pasted_row_major_increasing[OF h]
  have "row_major_less (pasted (fill_a4 default_layout sample_passport 6) ! 4)
         (pasted (fill_a4 default_layout sample_passport 6) ! 5)" .
  with h show ?thesis by blast
qed

text \<open>
  C5: with the program's layout settings and six copies, six tiles are placed, all in the
  first row, at x = 10, 418, 826, 1234, 1642, 2050 and y = 15: the counter is 6 and the
  page is the white 2480 by 3508 canvas with the tile pasted at these six positions.
\<close>

theorem default_six_copies:
  "pasted (fill_a4 default_layout passport_img 6) =
     [(10, 15), (418, 15), (826, 15), (1234, 15), (1642, 15), (2050, 15)]
   \<and> placed (fill_a4 default_layout passport_img 6) = 6
   \<and> a4 (fill_a4 default_layout passport_img 6) =
       foldl (\<lambda>page p. paste_at page passport_img p) (Image_new ''RGB'' (2480, 3508) white)
         [(10, 15), (418, 15), (826, 15), (1234, 15), (1642, 15), (2050, 15)]"
proof -
  have "a4 (fill_a4 default_layout passport_img 6) =
       foldl (\<lambda>page p. paste_at page passport_img p)
         (Image_new ''RGB'' (a4_w default_layout, a4_h default_layout) white)
         [(10, 15), (418, 15), (826, 15), (1234, 15), (1642, 15), (2050, 15)]"
    using page_is_fold_of_log[of default_layout passport_img 6]
    by (simp only: default_six_pasted)
  moreover have "a4_w default_layout = 2480" "a4_h default_layout = 3508"
    by (simp_all add: default_layout_def)
  ultimately show ?thesis
    by (simp only: placed_length_pasted default_six_pasted) simp
qed

section \<open>The properties of the tile preparation\<close>

lemma DIV255_mult_255: "c \<le> 255 \<Longrightarrow> DIV255 (c * 255) = c"
  unfolding DIV255_def Let_def by arith

lemma BLEND_0: "d \<le> 255 \<Longrightarrow> BLEND 0 d c = d"
  by (simp add: BLEND_def DIV255_mult_255)

lemma BLEND_255: "c \<le> 255 \<Longrightarrow> BLEND 255 d c = c"
  by (simp add: BLEND_def DIV255_mult_255)

text \<open>
  C7: the flattened image has mode RGB and the size of the source. A source of mode RGBA
  or LA is mixed, pixel by pixel, into white through its own alpha: where the alpha is 0
  the pixel is white, where it is 255 the pixel keeps its colour. Any other source is
  converted to RGB.
\<close>

theorem flatten_opaque_rgb:
  "mode (flatten lib img) = ''RGB'' \<and> img_size (flatten lib img) = img_size img \<and>
   (mode img = ''RGBA'' \<longrightarrow>
      (\<forall>p r g b a. getpixel img p = [r, g, b, a] \<longrightarrow>
         getpixel (flatten lib img) p = [BLEND a 255 r, BLEND a 255 g, BLEND a 255 b] \<and>
         (a = 0 \<longrightarrow> getpixel (flatten lib img) p = white) \<and>
         (a = 255 \<and> r \<le> 255 \<and> g \<le> 255 \<and> b \<le> 255 \<longrightarrow>
            getpixel (flatten lib img) p = [r, g, b]))) \<and>
   (mode img = ''LA'' \<longrightarrow>
      (\<forall>p l a. getpixel img p = [l, a] \<longrightarrow>
         getpixel (flatten lib img) p = [BLEND a 255 l, BLEND a 255 l, BLEND a 255 l] \<and>
         (a = 0 \<longrightarrow> getpixel (flatten lib img) p = white) \<and>
         (a = 255 \<and> l \<le> 255 \<longrightarrow> getpixel (flatten lib img) p = [l, l, l]))) \<and>
   (mode img \<notin> {''RGBA'', ''LA''} \<longrightarrow> flatten lib img = convert lib img ''RGB'')"
  by (auto simp: flatten_def paste_mask_def last_band_def colour_bands_def Image_new_def
      convert_def white_def BLEND_0 BLEND_255 Let_def)

theorem flatten_opaque_rgb_witness:
  "mode sample_rgba = ''RGBA''
   \<and> getpixel sample_rgba (0, 0) = [10, 20, 30, 0]
   \<and> getpixel sample_rgba (1, 0) = [10, 20, 30, 255]
   \<and> mode (flatten sample_lib sample_rgba) = ''RGB''
   \<and> getpixel (flatten sample_lib sample_rgba) (0, 0) = white
   \<and> getpixel (flatten sample_lib sample_rgba) (1, 0) = [10, 20, 30]"
proof -
  have h: "mode sample_rgba = ''RGBA''"
    "getpixel sample_rgba (0, 0) = [10, 20, 30, 0]"
    "getpixel sample_rgba (1, 0) = [10, 20, 30, 255]"
    by (simp_all add: sample_rgba_def)
  note t = flatten_opaque_rgb[of sample_lib sample_rgba]
  have m: "mode (flatten sample_lib sample_rgba) = ''RGB''" using t by blast
  have a: "getpixel (flatten sample_lib sample_rgba) (0, 0) = white"
    using t h(1,2) by blast
  have b: "getpixel (flatten sample_lib sample_rgba) (1, 0) = [10, 20, 30]"
  proof -
    have "(255::nat) = 255 \<and> (10::nat) \<le> 255 \<and> (20::nat) \<le> 255 \<and> (30::nat) \<le> 255"
      by simp
    then show ?thesis using t h(1,3) by blast
  qed
  show ?thesis using h m a b by simp
qed

lemma make_tile_pixels:
  assumes "0 < passport_width L" and "0 < passport_height L" and "0 \<le> border L"
  shows "\<exists>tile. make_tile lib L img = Some tile \<and>
     img_size tile = (passport_width L + 2 * border L, passport_height L + 2 * border L) \<and>
     mode tile = mode img \<and>
     (\<forall>i j. getpixel tile (i, j) =
        (if border L \<le> i \<and> i < border L + passport_width L \<and>
            border L \<le> j \<and> j < border L + passport_height L
         then resample lib LANCZOS img (passport_width L, passport_height L)
                (i - border L, j - border L)
         else black))"
  using assms
  by (simp add: make_tile_def resize_def ImageOps_expand_def paste_at_def Image_new_def Let_def)

text \<open>
  C8: for a tile of positive width and height and a non-negative border, the tile made from
  any image is \<open>passport_width + 2 * border\<close> wide and \<open>passport_height + 2 * border\<close>
  high, which is the footprint \<open>paste_w\<close>, \<open>paste_h\<close> the page is filled with: inside the
  border it is the image resized with the Lanczos filter, and the border is black. With
  the program's layout settings the tile is 388 by 476.
\<close>

theorem tile_size:
  "(0 < passport_width L \<and> 0 < passport_height L \<and> 0 \<le> border L \<longrightarrow>
     (\<exists>tile. make_tile lib L img = Some tile \<and>
        img_size tile = (passport_width L + 2 * border L, passport_height L + 2 * border L) \<and>
        img_size tile = (paste_w L, paste_h L) \<and>
        (\<forall>i j. getpixel tile (i, j) =
           (if border L \<le> i \<and> i < border L + passport_width L \<and>
               border L \<le> j \<and> j < border L + passport_height L
            then resample lib LANCZOS img (passport_width L, passport_height L)
                   (i - border L, j - border L)
            else black)))) \<and>
   (\<exists>tile. make_tile lib default_layout img = Some tile \<and> img_size tile = (388, 476))"
proof (intro conjI impI)
  assume h: "0 < passport_width L \<and> 0 < passport_height L \<and> 0 \<le> border L"
  then obtain tile where "make_tile lib L img = Some tile"
    "img_size tile = (passport_width L + 2 * border L, passport_height L + 2 * border L)"
    "\<forall>i j. getpixel tile (i, j) =
        (if border L \<le> i \<and> i < border L + passport_width L \<and>
            border L \<le> j \<and> j < border L + passport_height L
         then resample lib LANCZOS img (passport_width L, passport_height L)
                (i - border L, j - border L)
         else black)"
    using make_tile_pixels[of L lib img] by blast
  then show "\<exists>tile. make_tile lib L img = Some tile \<and>
        img_size tile = (passport_width L + 2 * border L, passport_height L + 2 * border L) \<and>
        img_size tile = (paste_w L, paste_h L) \<and>
        (\<forall>i j. getpixel tile (i, j) =
           (if border L \<le> i \<and> i < border L + passport_width L \<and>
               border L \<le> j \<and> j < border L + passport_height L
            then resample lib LANCZOS img (passport_width L, passport_height L)
                   (i - border L, j - border L)
            else black))"
    by (simp add: paste_w_def paste_h_def)
next
  have "0 < passport_width default_layout" "0 < passport_height default_layout"
    "0 \<le> border default_layout"
    by (simp_all add: default_layout_def)
  from make_tile_pixels[OF this, of lib img]
  show "\<exists>tile. make_tile lib default_layout img = Some tile \<and> img_size tile = (388, 476)"
    by (auto simp: default_layout_def)
qed

theorem tile_size_witness:
  "0 < passport_width default_layout \<and> 0 < passport_height default_layout
   \<and> 0 \<le> border default_layout
   \<and> (\<exists>tile. make_tile sample_lib default_layout sample_rgba = Some tile
         \<and> img_size tile = (paste_w default_layout, paste_h default_layout)
         \<and> getpixel tile (1, 1) = black
         \<and> getpixel tile (2, 2) = [10, 20, 30, 0])"
proof -
  have h: "0 < passport_width default_layout \<and> 0 < passport_height default_layout
      \<and> 0 \<le> border default_layout"
    by (simp add: default_layout_def)
  then obtain tile where t: "make_tile sample_lib default_layout sample_rgba = Some tile"
    "img_size tile = (paste_w default_layout, paste_h default_layout)"
    "\<forall>i j. getpixel tile (i, j) =
        (if border default_layout \<le> i \<and> i < border default_layout + passport_width default_layout \<and>
            border default_layout \<le> j \<and> j < border default_layout + passport_height default_layout
         then resample sample_lib LANCZOS sample_rgba
                (passport_width default_layout, passport_height default_layout)
                (i - border default_layout, j - border default_layout)
         else black)"
    using tile_size[of default_layout sample_lib sample_rgba] by blast
  have "getpixel tile (1, 1) = black" "getpixel tile (2, 2) = [10, 20, 30, 0]"
    using t(3) by (simp_all add: default_layout_def sample_lib_def sample_rgba_def)
  then show ?thesis using h t(1,2) by simp
qed

section \<open>The properties of the pipeline\<close>

lemma bg_removal_failed_cases:
  "bg_removal_failed body =
     (case first_error_entry body of
        Some e \<Rightarrow> Json (JObj [(''error'',
                    case map_of e ''code'' of None \<Rightarrow> JStr ''unknown_error'' | Some c \<Rightarrow> c)]) 410
      | None \<Rightarrow> Json (JObj [(''error'', JStr ''bg_removal_failed'')]) 500)"
proof (cases body)
  case None
  then show ?thesis by (simp add: bg_removal_failed_def)
next
  case (Some error_info)
  show ?thesis
  proof (cases error_info)
    case (JObj kvs)
    show ?thesis
    proof (cases "map_of kvs ''errors''")
      case None
      with Some JObj show ?thesis by (simp add: bg_removal_failed_def)
    next
      case (Some errs)
      note errs = Some
      show ?thesis
      proof (cases errs)
        case (JArr xs)
        show ?thesis
        proof (cases xs)
          case Nil
          with \<open>body = Some error_info\<close> JObj errs JArr show ?thesis
            by (simp add: bg_removal_failed_def)
        next
          case (Cons x xs')
          with \<open>body = Some error_info\<close> JObj errs JArr show ?thesis
            by (cases x) (simp_all add: bg_removal_failed_def split: option.split)
        qed
      next
        case (JStr s)
        with \<open>body = Some error_info\<close> JObj errs show ?thesis
          by (cases s) (simp_all add: bg_removal_failed_def)
      qed (use \<open>body = Some error_info\<close> JObj errs in \<open>simp_all add: bg_removal_failed_def\<close>)
    qed
  qed (use Some in \<open>simp_all add: bg_removal_failed_def\<close>)
qed

text \<open>
  C9, amended: when remove.bg answers with a status other than 200, \<open>process\<close> makes no
  further call and returns no document. It returns status 410 when the body is an object
  whose \<open>errors\<close> is a list that starts with an object, with the \<open>code\<close> of that first
  error or, when it has none, with \<open>unknown_error\<close>; in every other case it returns
  status 500 with \<open>bg_removal_failed\<close>.
\<close>

theorem removal_failure_short_circuits:
  assumes "image_file req = Some input_image" and "copies_field req \<noteq> Malformed"
    and "removal_status w \<noteq> 200"
  shows "process lib w req =
     (case first_error_entry (removal_json w) of
        Some e \<Rightarrow> Json (JObj [(''error'',
                    case map_of e ''code'' of None \<Rightarrow> JStr ''unknown_error'' | Some c \<Rightarrow> c)]) 410
      | None \<Rightarrow> Json (JObj [(''error'', JStr ''bg_removal_failed'')]) 500,
      [RemoveBg input_image])"
  using assms
  by (cases "copies_field req") (simp_all add: process_def bg_removal_failed_cases)

theorem removal_failure_short_circuits_witness:
  "image_file sample_request = Some ''photo'' \<and> copies_field sample_request \<noteq> Malformed
   \<and> removal_status (refusing_world body_with_code) \<noteq> 200
   \<and> process sample_lib (refusing_world body_with_code) sample_request =
       (Json (JObj [(''error'', JStr ''unknown_foreground'')]) 410, [RemoveBg ''photo''])"
proof -
  have h: "image_file sample_request = Some ''photo''" "copies_field sample_request \<noteq> Malformed"
    "removal_status (refusing_world body_with_code) \<noteq> 200"
    by (simp_all add: sample_request_def refusing_world_def)
  have "first_error_entry (removal_json (refusing_world body_with_code)) =
      Some [(''title'', JStr ''No foreground''), (''code'', JStr ''unknown_foreground'')]"
    by (simp add: refusing_world_def body_with_code_def)
  then show ?thesis
    using h removal_failure_short_circuits[OF h, of sample_lib] by simp
qed

text \<open>
  Counterexample to C9 as stated, a body whose first error has no code: the answer is
  status 410 with \<open>unknown_error\<close>, not status 500.
\<close>

theorem missing_code_answers_410:
  "removal_status (refusing_world body_without_code) \<noteq> 200
   \<and> spec_first_error_code (removal_json (refusing_world body_without_code)) = None
   \<and> process sample_lib (refusing_world body_without_code) sample_request =
       (Json (JObj [(''error'', JStr ''unknown_error'')]) 410, [RemoveBg ''photo''])"
  by (simp add: process_def bg_removal_failed_def refusing_world_def body_without_code_def
      sample_request_def)

text \<open>
  C10: a negative number of copies runs the loop zero times: nothing is pasted on the new
  white page and the counter is 0, as for zero copies. No error comes of it: when the
  earlier steps succeed, \<open>process\<close> returns the PDF of the blank page.
\<close>

theorem negative_copies_place_nothing:
  assumes "copies < 0"
  shows "fill_a4 L passport_img copies = fill_init L
       \<and> fill_a4 L passport_img copies = fill_a4 L passport_img 0
       \<and> placed (fill_a4 L passport_img copies) = 0
       \<and> pasted (fill_a4 L passport_img copies) = []
       \<and> a4 (fill_a4 L passport_img copies) = Image_new ''RGB'' (a4_w L, a4_h L) white
       \<and> (image_file req = Some input_image \<and> copies_field req = Given copies \<and>
          removal_status w = 200 \<and> upload_secure_url w = Some url \<and> url \<noteq> [] \<longrightarrow>
          fst (process lib w req) = Pdf (Image_new ''RGB'' (2480, 3508) white))"
proof -
  have loop: "fill_a4 L' t copies = fill_init L'" for L' t
    using assms by (simp add: fill_a4_def)
  have "0 < passport_width default_layout" "0 < passport_height default_layout"
    "0 \<le> border default_layout"
    by (simp_all add: default_layout_def)
  from make_tile_pixels[OF this, of lib "flatten lib (enhanced_image w)"]
  obtain tile where "make_tile lib default_layout (flatten lib (enhanced_image w)) = Some tile"
    by blast
  then have "fst (process lib w req) = Pdf (Image_new ''RGB'' (2480, 3508) white)"
    if "image_file req = Some input_image" "copies_field req = Given copies"
      "removal_status w = 200" "upload_secure_url w = Some url" "url \<noteq> []"
    using that by (simp add: process_def loop fill_init_def default_layout_def Let_def)
  then show ?thesis using loop[of L passport_img] by (simp add: fill_a4_def fill_init_def)
qed

theorem negative_copies_place_nothing_witness:
  "(-3::int) < 0
   \<and> placed (fill_a4 default_layout sample_tile (-3)) = 0
   \<and> pasted (fill_a4 default_layout sample_tile (-3)) = []
   \<and> fst (process sample_lib accepting_world (sample_request\<lparr>copies_field := Given (-3)\<rparr>))
       = Pdf (Image_new ''RGB'' (2480, 3508) white)"
proof -
  have h: "(-3::int) < 0" by simp
  have r: "image_file (sample_request\<lparr>copies_field := Given (-3)\<rparr>) = Some ''photo'' \<and>
      copies_field (sample_request\<lparr>copies_field := Given (-3)\<rparr>) = Given (-3) \<and>
      removal_status accepting_world = 200 \<and>
      upload_secure_url accepting_world = Some ''https://res.example/photo.png'' \<and>
      ''https://res.example/photo.png'' \<noteq> []"
    by (simp add: sample_request_def accepting_world_def)
  note t = negative_copies_place_nothing[OF h, of default_layout sample_tile
      "sample_request\<lparr>copies_field := Given (-3)\<rparr>" "''photo''" accepting_world
      "''https://res.example/photo.png''" sample_lib]
  have p: "placed (fill_a4 default_layout sample_tile (-3)) = 0"
    "pasted (fill_a4 default_layout sample_tile (-3)) = []"
    using t by blast+
  have q: "fst (process sample_lib accepting_world
      (sample_request\<lparr>copies_field := Given (-3)\<rparr>)) = Pdf (Image_new ''RGB'' (2480, 3508) white)"
    using t r by blast
  show ?thesis using h p q by simp
qed

end
